theory Spec2Isabelle
  imports Main "HOL-Library.Word"
begin

section \<open>The user entity of the web backend (database\_user.go)\<close>

text \<open>
  A Go \<open>string\<close> is a sequence of bytes: \<open>len\<close> counts bytes and \<open>s[:1]\<close> cuts after
  the first byte. It is modelled as \<open>string\<close> (a list of 8-bit characters).
  \<open>time.Time\<close> is an instant counted from Go's zero time, \<open>[]byte\<close> a list of bytes and
  a slice a list (the nil slice and the empty slice are both \<open>[]\<close>).
\<close>

type_synonym Time = nat

text \<open>\<open>sql.NullString\<close>: a string and the flag that says it is not NULL.\<close>

record NullString =
  String :: string
  Valid :: bool

text \<open>
  \<open>T_user\<close>, field by field. The ownership entity \<open>T_ownership\<close> is declared in
  another file of the package; it is the type parameter \<open>'o\<close>.
\<close>

record 'o T_user =
  Id_user :: "64 word"
  Email :: string
  Password :: NullString
  SsoId :: NullString
  Company :: string
  Department :: string
  Created :: Time
  LastLogin :: Time
  LogoutCount :: "64 word"
  Active :: bool
  Admin :: bool
  Name :: string
  Surname :: string
  Gender :: string
  Certificate :: "8 word list"
  DbPasswordHash :: string
  Ownerships :: "'o list"

text \<open>The zero value of \<open>sql.NullString\<close>, which a struct literal leaves in a field it omits.\<close>

definition NullString_zero :: NullString where
  "NullString_zero = \<lparr>String = [], Valid = False\<rparr>"

text \<open>
  \<open>NewUser\<close>. The first argument is the value \<open>time.Now()\<close> returns at the call.
  Fields the struct literal does not name keep their zero value.
\<close>

definition NewUser :: "Time \<Rightarrow> string \<Rightarrow> string \<Rightarrow> string \<Rightarrow> string \<Rightarrow> string \<Rightarrow> 'o T_user" where
  "NewUser now email company department name surname =
     (let company = (if length company = 0 then email else company)
      in \<lparr>Id_user = 0,
          Email = email,
          Password = NullString_zero,
          SsoId = NullString_zero,
          Company = company,
          Department = department,
          Created = now,
          LastLogin = 0,
          LogoutCount = 0,
          Active = True,
          Admin = False,
          Name = name,
          Surname = surname,
          Gender = [],
          Certificate = [],
          DbPasswordHash = [],
          Ownerships = []\<rparr>)"

section \<open>Library functions the sanitization calls\<close>

subsection \<open>UTF-8 (package unicode/utf8)\<close>

text \<open>
  A rune is a code point. \<open>DecodeRuneInString\<close> returns the first rune of a string and
  the number of bytes it takes; a byte that starts no well-formed encoding (a stray
  continuation byte, a cut-off or overlong sequence, a surrogate) is the rune
  \<open>RuneError\<close> of width 1. \<open>seq2\<close>, \<open>seq3\<close> and \<open>seq4\<close> are the well-formed sequences
  of two, three and four bytes that the decoder's tables accept.
\<close>

type_synonym rune = nat

definition RuneError :: rune where
  "RuneError = 0xFFFD"

definition byte :: "char \<Rightarrow> nat" where
  "byte c = of_char c"

definition between :: "nat \<Rightarrow> nat \<Rightarrow> char \<Rightarrow> bool" where
  "between lo hi c = (lo \<le> byte c \<and> byte c \<le> hi)"

definition seq2 :: "string \<Rightarrow> bool" where
  "seq2 s = (2 \<le> length s \<and> between 0xC2 0xDF (s ! 0) \<and> between 0x80 0xBF (s ! 1))"

definition seq3 :: "string \<Rightarrow> bool" where
  "seq3 s = (3 \<le> length s \<and> between 0xE0 0xEF (s ! 0)
             \<and> between (if byte (s ! 0) = 0xE0 then 0xA0 else 0x80)
                        (if byte (s ! 0) = 0xED then 0x9F else 0xBF) (s ! 1)
             \<and> between 0x80 0xBF (s ! 2))"

definition seq4 :: "string \<Rightarrow> bool" where
  "seq4 s = (4 \<le> length s \<and> between 0xF0 0xF4 (s ! 0)
             \<and> between (if byte (s ! 0) = 0xF0 then 0x90 else 0x80)
                        (if byte (s ! 0) = 0xF4 then 0x8F else 0xBF) (s ! 1)
             \<and> between 0x80 0xBF (s ! 2) \<and> between 0x80 0xBF (s ! 3))"

definition DecodeRuneInString :: "string \<Rightarrow> rune \<times> nat" where
  "DecodeRuneInString s =
     (if s = [] then (RuneError, 0)
      else if byte (s ! 0) < 0x80 then (byte (s ! 0), 1)
      else if seq2 s then
        ((byte (s ! 0) mod 0x20) * 0x40 + byte (s ! 1) mod 0x40, 2)
      else if seq3 s then
        ((byte (s ! 0) mod 0x10) * 0x1000 + (byte (s ! 1) mod 0x40) * 0x40
         + byte (s ! 2) mod 0x40, 3)
      else if seq4 s then
        ((byte (s ! 0) mod 0x08) * 0x40000 + (byte (s ! 1) mod 0x40) * 0x1000
         + (byte (s ! 2) mod 0x40) * 0x40 + byte (s ! 3) mod 0x40, 4)
      else (RuneError, 1))"

text \<open>
  \<open>EncodeRune\<close>: the UTF-8 bytes of a rune. A surrogate or a value above the last code
  point is written as \<open>RuneError\<close>, the three bytes EF BF BD.
\<close>

definition EncodeRune :: "rune \<Rightarrow> string" where
  "EncodeRune r =
     (if r \<le> 0x7F then [char_of r]
      else if r \<le> 0x7FF then [char_of (0xC0 + r div 0x40), char_of (0x80 + r mod 0x40)]
      else if 0x10FFFF < r \<or> (0xD800 \<le> r \<and> r \<le> 0xDFFF) then [CHR 0xEF, CHR 0xBF, CHR 0xBD]
      else if r \<le> 0xFFFF then
        [char_of (0xE0 + r div 0x1000), char_of (0x80 + (r div 0x40) mod 0x40),
         char_of (0x80 + r mod 0x40)]
      else
        [char_of (0xF0 + r div 0x40000), char_of (0x80 + (r div 0x1000) mod 0x40),
         char_of (0x80 + (r div 0x40) mod 0x40), char_of (0x80 + r mod 0x40)])"

text \<open>
  The first byte of a string is ill-formed when it is neither an ASCII byte nor the
  start of a well-formed sequence; the decoder then returns \<open>RuneError\<close> of width 1.
\<close>

definition ill_formed_head :: "string \<Rightarrow> bool" where
  "ill_formed_head s =
     (s \<noteq> [] \<and> \<not> byte (s ! 0) < 0x80 \<and> \<not> seq2 s \<and> \<not> seq3 s \<and> \<not> seq4 s)"

subsection \<open>Case mapping (packages strings and unicode)\<close>

text \<open>
  What the sanitization needs from outside the package: the sanitizer of the HTML policy
  (\<open>bluemonday.StrictPolicy().Sanitize\<close>) and the case tables of package unicode for the
  runes above ASCII (\<open>unicode.To(unicode.UpperCase, r)\<close> and
  \<open>unicode.To(unicode.LowerCase, r)\<close>). They are parameters of the model.
\<close>

record extern =
  Sanitize :: "string \<Rightarrow> string"
  To_UpperCase :: "rune \<Rightarrow> rune"
  To_LowerCase :: "rune \<Rightarrow> rune"

text \<open>\<open>unicode.ToUpper\<close> and \<open>unicode.ToLower\<close>: ASCII by arithmetic, the rest by table.\<close>

definition unicode_ToUpper :: "extern \<Rightarrow> rune \<Rightarrow> rune" where
  "unicode_ToUpper ext r =
     (if r \<le> 0x7F then (if 0x61 \<le> r \<and> r \<le> 0x7A then r - 0x20 else r)
      else To_UpperCase ext r)"

definition unicode_ToLower :: "extern \<Rightarrow> rune \<Rightarrow> rune" where
  "unicode_ToLower ext r =
     (if r \<le> 0x7F then (if 0x41 \<le> r \<and> r \<le> 0x5A then r + 0x20 else r)
      else To_LowerCase ext r)"

text \<open>
  \<open>strings.Map\<close>: the string is read rune by rune, as \<open>range\<close> does, and each rune is
  replaced by the encoding of its image. An ill-formed byte is read as \<open>RuneError\<close>, so
  it comes out as the encoding of the image of \<open>RuneError\<close>.
\<close>

function Map_str :: "(rune \<Rightarrow> rune) \<Rightarrow> string \<Rightarrow> string" where
  "Map_str mapping [] = []"
| "Map_str mapping (c # cs) =
     EncodeRune (mapping (fst (DecodeRuneInString (c # cs))))
     @ Map_str mapping (drop (snd (DecodeRuneInString (c # cs))) (c # cs))"
  by pat_completeness auto
termination
proof (relation "measure (\<lambda>(m, s). length s)")
  show "wf (measure (\<lambda>(m :: rune \<Rightarrow> rune, s :: string). length s))"
    by simp
next
  fix mapping :: "rune \<Rightarrow> rune" and c :: char and cs :: string
  have "0 < snd (DecodeRuneInString (c # cs))"
    by (simp add: DecodeRuneInString_def)
  then show "((mapping, drop (snd (DecodeRuneInString (c # cs))) (c # cs)), (mapping, c # cs))
             \<in> measure (\<lambda>(m, s). length s)"
    by simp
qed

text \<open>
  \<open>strings.ToUpper\<close> and \<open>strings.ToLower\<close>: a string of ASCII bytes is mapped byte by
  byte; any other string goes through \<open>strings.Map\<close> with the rune mapping.
\<close>

definition isASCII :: "string \<Rightarrow> bool" where
  "isASCII s = list_all (\<lambda>c. byte c < 0x80) s"

definition upper_byte :: "char \<Rightarrow> char" where
  "upper_byte c = (if 0x61 \<le> byte c \<and> byte c \<le> 0x7A then char_of (byte c - 0x20) else c)"

definition lower_byte :: "char \<Rightarrow> char" where
  "lower_byte c = (if 0x41 \<le> byte c \<and> byte c \<le> 0x5A then char_of (byte c + 0x20) else c)"

definition ToUpper :: "extern \<Rightarrow> string \<Rightarrow> string" where
  "ToUpper ext s = (if isASCII s then map upper_byte s else Map_str (unicode_ToUpper ext) s)"

definition ToLower :: "extern \<Rightarrow> string \<Rightarrow> string" where
  "ToLower ext s = (if isASCII s then map lower_byte s else Map_str (unicode_ToLower ext) s)"

text \<open>
  Two strings that differ at most in the case of ASCII letters: lowering the letters
  \<open>A\<close> to \<open>Z\<close> byte by byte makes them equal.
\<close>

definition same_but_ASCII_case :: "string \<Rightarrow> string \<Rightarrow> bool" where
  "same_but_ASCII_case a b = (map lower_byte a = map lower_byte b)"

section \<open>Sanitization before a write\<close>

text \<open>
  A Go \<open>error\<close> is either the value built by \<open>errors.New\<close> in this file or an error
  the database layer reported, which this file never inspects. The database layer
  reports that a row breaks a uniqueness constraint (with the constraint's column), or
  any other fault (with its message).
\<close>

datatype db_error = duplicate_key string | backend_fault string

datatype error = errors_New string | db_Error db_error

text \<open>
  The statement of the running write, as far as the hook touches it: the columns it
  sets with \<open>SetColumn\<close> and their values, in the order of the calls.
\<close>

datatype column_value = string_value string | NullString_value NullString

type_synonym Statement = "(string \<times> column_value) list"

definition SetColumn :: "Statement \<Rightarrow> string \<Rightarrow> column_value \<Rightarrow> Statement" where
  "SetColumn stmt name v = stmt @ [(name, v)]"

text \<open>
  \<open>BeforeSave\<close>, the hook GORM runs before every write of a user. It rewrites the user
  behind the pointer, records the rewritten columns in the statement and returns nil.
\<close>

definition BeforeSave ::
  "extern \<Rightarrow> 'o T_user \<Rightarrow> Statement \<Rightarrow> 'o T_user \<times> Statement \<times> error option" where
  "BeforeSave ext user tx =
     (let user = user\<lparr>Email := Sanitize ext (Email user)\<rparr>;
          user = user\<lparr>Email := ToLower ext (Email user)\<rparr>;
          tx = SetColumn tx ''email'' (string_value (Email user));
          (user, tx) =
            (if Valid (SsoId user) then
               (let ssoId = Sanitize ext (String (SsoId user));
                    ssoId = ToUpper ext ssoId;
                    user = user\<lparr>SsoId := \<lparr>String = ssoId, Valid = True\<rparr>\<rparr>
                in (user, SetColumn tx ''sso_id'' (NullString_value (SsoId user))))
             else (user, tx));
          user = user\<lparr>Name := Sanitize ext (Name user)\<rparr>;
          tx = SetColumn tx ''name'' (string_value (Name user));
          user = user\<lparr>Surname := Sanitize ext (Surname user)\<rparr>;
          tx = SetColumn tx ''surname'' (string_value (Surname user));
          user = user\<lparr>Gender := Sanitize ext (Gender user)\<rparr>;
          user = user\<lparr>Gender := ToUpper ext (Gender user)\<rparr>;
          user = (if length (Gender user) > 1 then user\<lparr>Gender := take 1 (Gender user)\<rparr> else user);
          tx = SetColumn tx ''gender'' (string_value (Gender user))
      in (user, tx, None))"

section \<open>The repository operations\<close>

text \<open>
  What a GORM call leaves behind: the new state of the database, the entity it was given
  (hooks write into it through the pointer), and the fields \<open>Error\<close> and \<open>RowsAffected\<close>
  of the returned handle.
\<close>

record ('s, 'o) gorm_result =
  res_db :: 's
  res_user :: "'o T_user"
  res_Error :: "db_error option"
  res_RowsAffected :: int

text \<open>
  The calls this file makes on the global handle \<open>backendDb\<close>. GORM and the database
  behind it are not part of the package, so their behaviour is a parameter: a record of
  functions over a database state \<open>'s\<close>.
\<close>

record ('s, 'o) gorm =
  gorm_Create :: "'s \<Rightarrow> 'o T_user \<Rightarrow> ('s, 'o) gorm_result"
  gorm_Select_Save :: "'s \<Rightarrow> string \<Rightarrow> string list \<Rightarrow> 'o T_user \<Rightarrow> ('s, 'o) gorm_result"
  gorm_Delete :: "'s \<Rightarrow> 'o T_user \<Rightarrow> ('s, 'o) gorm_result"
  gorm_Find_id :: "'s \<Rightarrow> 64 word \<Rightarrow> 'o T_user list \<times> db_error option"
  gorm_Find_email :: "'s \<Rightarrow> string \<Rightarrow> 'o T_user list \<times> db_error option"

text \<open>
  \<open>Save\<close>. It returns the database state and the user after the call next to the two
  results of the Go function, the affected-row count and the error.
\<close>

definition Save ::
  "('s, 'o) gorm \<Rightarrow> 's \<Rightarrow> 'o T_user \<Rightarrow> string list \<Rightarrow> 's \<times> 'o T_user \<times> int \<times> error option" where
  "Save g db user columns =
     (if length columns < 1 then (db, user, 0, None)
      else if Id_user user = 0 then (db, user, 0, Some (errors_New ''invalid entry ID''))
      else
        (let arg0 = hd columns;
             args = tl columns;
             r = gorm_Select_Save g db arg0 args user
         in case res_Error r of
              Some e \<Rightarrow> (res_db r, res_user r, 0, Some (db_Error e))
            | None \<Rightarrow> (res_db r, res_user r, res_RowsAffected r, None)))"

text \<open>\<open>Create\<close> and \<open>Delete\<close> hand the error of the database layer back as it is.\<close>

definition Create ::
  "('s, 'o) gorm \<Rightarrow> 's \<Rightarrow> 'o T_user \<Rightarrow> 's \<times> 'o T_user \<times> error option" where
  "Create g db user =
     (let r = gorm_Create g db user
      in case res_Error r of
           Some errDb \<Rightarrow> (res_db r, res_user r, Some (db_Error errDb))
         | None \<Rightarrow> (res_db r, res_user r, None))"

definition Delete ::
  "('s, 'o) gorm \<Rightarrow> 's \<Rightarrow> 'o T_user \<Rightarrow> 's \<times> 'o T_user \<times> error option" where
  "Delete g db user =
     (let r = gorm_Delete g db user
      in case res_Error r of
           Some errDb \<Rightarrow> (res_db r, res_user r, Some (db_Error errDb))
         | None \<Rightarrow> (res_db r, res_user r, None))"



section \<open>The JSON form of a user\<close>

text \<open>
  \<open>encoding/json\<close> writes a struct as an object with one member per exported field, in
  the order of the declaration, under the name the \<open>json\<close> tag gives; a field tagged
  \<open>json:"-"\<close> is left out. A member's value is kept as the Go value it is made from;
  \<open>'j\<close> is the JSON form of an ownership, produced by the function given as argument.
\<close>

datatype 'j json_value =
    json_uint "64 word"
  | json_string string
  | json_bool bool
  | json_time Time
  | json_bytes "8 word list"
  | json_array "'j list"

definition Marshal_T_user :: "('o \<Rightarrow> 'j) \<Rightarrow> 'o T_user \<Rightarrow> (string \<times> 'j json_value) list" where
  "Marshal_T_user marshal_ownership user =
     [(''id'', json_uint (Id_user user)),
      (''email'', json_string (Email user)),
      (''company'', json_string (Company user)),
      (''department'', json_string (Department user)),
      (''created'', json_time (Created user)),
      (''last_login'', json_time (LastLogin user)),
      (''active'', json_bool (Active user)),
      (''admin'', json_bool (Admin user)),
      (''name'', json_string (Name user)),
      (''surname'', json_string (Surname user)),
      (''gender'', json_string (Gender user)),
      (''certificate'', json_bytes (Certificate user)),
      (''ownerships'', json_array (map marshal_ownership (Ownerships user)))]"

section \<open>A reference database\<close>

text \<open>
  One table of users in memory, behaving as GORM does over a relational table with the
  constraints the struct tags declare: \<open>id\<close> is the primary key, \<open>email\<close> and \<open>sso_id\<close>
  are unique (NULL excepted). Every write runs the \<open>BeforeSave\<close> hook first. \<open>outage\<close>
  stands for a fault of the database itself (the connection is lost, say): while it is
  set, every call fails with it. \<open>serial\<close> is the next key the table hands out.
\<close>

record 'o users_table =
  rows :: "'o T_user list"
  serial :: "64 word"
  outage :: "string option"

definition set_column :: "string \<Rightarrow> 'o T_user \<Rightarrow> 'o T_user \<Rightarrow> 'o T_user" where
  "set_column name src dst =
     (if name = ''email'' then dst\<lparr>Email := Email src\<rparr>
      else if name = ''password'' then dst\<lparr>Password := Password src\<rparr>
      else if name = ''sso_id'' then dst\<lparr>SsoId := SsoId src\<rparr>
      else if name = ''company'' then dst\<lparr>Company := Company src\<rparr>
      else if name = ''department'' then dst\<lparr>Department := Department src\<rparr>
      else if name = ''created'' then dst\<lparr>Created := Created src\<rparr>
      else if name = ''last_login'' then dst\<lparr>LastLogin := LastLogin src\<rparr>
      else if name = ''logout_count'' then dst\<lparr>LogoutCount := LogoutCount src\<rparr>
      else if name = ''active'' then dst\<lparr>Active := Active src\<rparr>
      else if name = ''admin'' then dst\<lparr>Admin := Admin src\<rparr>
      else if name = ''name'' then dst\<lparr>Name := Name src\<rparr>
      else if name = ''surname'' then dst\<lparr>Surname := Surname src\<rparr>
      else if name = ''gender'' then dst\<lparr>Gender := Gender src\<rparr>
      else if name = ''certificate'' then dst\<lparr>Certificate := Certificate src\<rparr>
      else if name = ''db_password'' then dst\<lparr>DbPasswordHash := DbPasswordHash src\<rparr>
      else dst)"

fun set_columns :: "string list \<Rightarrow> 'o T_user \<Rightarrow> 'o T_user \<Rightarrow> 'o T_user" where
  "set_columns [] src dst = dst"
| "set_columns (name # names) src dst = set_columns names src (set_column name src dst)"

text \<open>The constraint a row would break among the rows already there, if any.\<close>

definition violated :: "'o T_user list \<Rightarrow> 'o T_user \<Rightarrow> string option" where
  "violated others row =
     (if \<exists>r \<in> set others. Id_user r = Id_user row then Some ''id''
      else if \<exists>r \<in> set others. Email r = Email row then Some ''email''
      else if Valid (SsoId row)
              \<and> (\<exists>r \<in> set others. Valid (SsoId r) \<and> String (SsoId r) = String (SsoId row))
        then Some ''sso_id''
      else None)"

definition failed :: "'o users_table \<Rightarrow> 'o T_user \<Rightarrow> db_error \<Rightarrow> ('o users_table, 'o) gorm_result" where
  "failed db user e = \<lparr>res_db = db, res_user = user, res_Error = Some e, res_RowsAffected = 0\<rparr>"

definition table_Create :: "extern \<Rightarrow> 'o users_table \<Rightarrow> 'o T_user \<Rightarrow> ('o users_table, 'o) gorm_result" where
  "table_Create ext db user =
     (case outage db of
        Some f \<Rightarrow> failed db user (backend_fault f)
      | None \<Rightarrow>
          (let user = fst (BeforeSave ext user []);
               row = (if Id_user user = 0 then user\<lparr>Id_user := serial db\<rparr> else user)
           in case violated (rows db) row of
                Some c \<Rightarrow> failed db user (duplicate_key c)
              | None \<Rightarrow>
                  \<lparr>res_db = db\<lparr>rows := rows db @ [row], serial := serial db + 1\<rparr>,
                   res_user = row, res_Error = None, res_RowsAffected = 1\<rparr>))"

definition table_Select_Save ::
  "extern \<Rightarrow> 'o users_table \<Rightarrow> string \<Rightarrow> string list \<Rightarrow> 'o T_user \<Rightarrow> ('o users_table, 'o) gorm_result" where
  "table_Select_Save ext db arg0 args user =
     (case outage db of
        Some f \<Rightarrow> failed db user (backend_fault f)
      | None \<Rightarrow>
          (let user = fst (BeforeSave ext user []);
               hit = filter (\<lambda>r. Id_user r = Id_user user) (rows db);
               others = filter (\<lambda>r. Id_user r \<noteq> Id_user user) (rows db)
           in case hit of
                [] \<Rightarrow> \<lparr>res_db = db, res_user = user, res_Error = None, res_RowsAffected = 0\<rparr>
              | old # _ \<Rightarrow>
                  (let row = set_columns (arg0 # args) user old
                   in case violated others row of
                        Some c \<Rightarrow> failed db user (duplicate_key c)
                      | None \<Rightarrow>
                          \<lparr>res_db = db\<lparr>rows := map (\<lambda>r. if Id_user r = Id_user user then row else r) (rows db)\<rparr>,
                           res_user = user, res_Error = None,
                           res_RowsAffected = int (length hit)\<rparr>)))"

definition table_Delete :: "'o users_table \<Rightarrow> 'o T_user \<Rightarrow> ('o users_table, 'o) gorm_result" where
  "table_Delete db user =
     (case outage db of
        Some f \<Rightarrow> failed db user (backend_fault f)
      | None \<Rightarrow>
          \<lparr>res_db = db\<lparr>rows := filter (\<lambda>r. Id_user r \<noteq> Id_user user) (rows db)\<rparr>,
           res_user = user, res_Error = None,
           res_RowsAffected = int (length (filter (\<lambda>r. Id_user r = Id_user user) (rows db)))\<rparr>)"

definition table_Find :: "'o users_table \<Rightarrow> ('o T_user \<Rightarrow> bool) \<Rightarrow> 'o T_user list \<times> db_error option" where
  "table_Find db cond =
     (case outage db of
        Some f \<Rightarrow> ([], Some (backend_fault f))
      | None \<Rightarrow> (take 1 (filter cond (rows db)), None))"

text \<open>
  The lookup by key hands the key to the database as a query argument of type uint64.
  \<open>database/sql\<close> refuses such an argument when its high bit is set, so for a key from
  \<open>2^63\<close> on the query fails with an error before it reaches the table.
\<close>

definition table_Find_id :: "'o users_table \<Rightarrow> 64 word \<Rightarrow> 'o T_user list \<times> db_error option" where
  "table_Find_id db id' =
     (case outage db of
        Some f \<Rightarrow> ([], Some (backend_fault f))
      | None \<Rightarrow>
          if 0x8000000000000000 \<le> id'
          then ([], Some (backend_fault ''uint64 values with high bit set are not supported''))
          else table_Find db (\<lambda>r. Id_user r = id'))"

definition table_gorm :: "extern \<Rightarrow> ('o users_table, 'o) gorm" where
  "table_gorm ext =
     \<lparr>gorm_Create = table_Create ext,
      gorm_Select_Save = table_Select_Save ext,
      gorm_Delete = table_Delete,
      gorm_Find_id = table_Find_id,
      gorm_Find_email = (\<lambda>db mail. table_Find db (\<lambda>r. Email r = mail))\<rparr>"

text \<open>
  An instance of the outside functions for evaluating the model on text without markup:
  on a string that has none of the bytes \<open><\<close>, \<open>>\<close>, \<open>&\<close>, the two quotes and CR the
  strict policy returns the string as it is, and the case tables are given for the
  code points the examples use: U+03A3, U+03C3 and U+03C2 (capital, small and final
  sigma), and two that have no case, U+5973 and U+FFFD.
\<close>

definition plain_text :: "string \<Rightarrow> bool" where
  "plain_text s = list_all (\<lambda>c. c \<notin> {CHR ''<'', CHR ''>'', CHR ''&'', CHR 0x27, CHR 0x22, CHR 0x0D}) s"

definition text_extern :: extern where
  "text_extern =
     \<lparr>Sanitize = (\<lambda>s. s),
      To_UpperCase = (\<lambda>r. if r = 0x3C3 \<or> r = 0x3C2 then 0x3A3 else r),
      To_LowerCase = (\<lambda>r. if r = 0x3A3 then 0x3C3 else r)\<rparr>"

text \<open>No row of the table has an empty company.\<close>

definition companies_set :: "'o users_table \<Rightarrow> bool" where
  "companies_set db = list_all (\<lambda>r. Company r \<noteq> []) (rows db)"

text \<open>An empty table, and a user as \<open>NewUser\<close> makes one, for the examples.\<close>

definition empty_table :: "unit users_table" where
  "empty_table = \<lparr>rows = [], serial = 1, outage = None\<rparr>"

definition jane :: "unit T_user" where
  "jane = NewUser 1000 ''Jane@Example.COM'' [] ''IT'' ''Jane'' ''Doe''"

text \<open>The table that holds Jane, under the key 1 and with her address in lower case.\<close>

definition one_user_table :: "unit users_table" where
  "one_user_table =
     \<lparr>rows = [jane\<lparr>Id_user := 1, Email := ''jane@example.com''\<rparr>], serial = 2, outage = None\<rparr>"

section \<open>What the sanitization writes into each field\<close>

lemma BeforeSave_Email:
  "Email (fst (BeforeSave ext user tx)) = ToLower ext (Sanitize ext (Email user))"
  by (simp add: BeforeSave_def Let_def split: prod.splits)

lemma BeforeSave_SsoId:
  "SsoId (fst (BeforeSave ext user tx)) =
     (if Valid (SsoId user)
      then \<lparr>String = ToUpper ext (Sanitize ext (String (SsoId user))), Valid = True\<rparr>
      else SsoId user)"
  by (simp add: BeforeSave_def Let_def split: prod.splits)

lemma BeforeSave_Name: "Name (fst (BeforeSave ext user tx)) = Sanitize ext (Name user)"
  by (simp add: BeforeSave_def Let_def split: prod.splits)

lemma BeforeSave_Surname: "Surname (fst (BeforeSave ext user tx)) = Sanitize ext (Surname user)"
  by (simp add: BeforeSave_def Let_def split: prod.splits)

lemma BeforeSave_Gender:
  "Gender (fst (BeforeSave ext user tx)) = take 1 (ToUpper ext (Sanitize ext (Gender user)))"
  by (cases "ToUpper ext (Sanitize ext (Gender user))")
     (simp_all add: BeforeSave_def Let_def split: prod.splits)

lemma BeforeSave_Company: "Company (fst (BeforeSave ext user tx)) = Company user"
  by (simp add: BeforeSave_def Let_def split: prod.splits)

lemma BeforeSave_Id: "Id_user (fst (BeforeSave ext user tx)) = Id_user user"
  by (simp add: BeforeSave_def Let_def split: prod.splits)

lemma BeforeSave_keeps:
  "Password (fst (BeforeSave ext user tx)) = Password user"
  "Department (fst (BeforeSave ext user tx)) = Department user"
  "Created (fst (BeforeSave ext user tx)) = Created user"
  "LastLogin (fst (BeforeSave ext user tx)) = LastLogin user"
  "LogoutCount (fst (BeforeSave ext user tx)) = LogoutCount user"
  "Active (fst (BeforeSave ext user tx)) = Active user"
  "Admin (fst (BeforeSave ext user tx)) = Admin user"
  "Certificate (fst (BeforeSave ext user tx)) = Certificate user"
  "DbPasswordHash (fst (BeforeSave ext user tx)) = DbPasswordHash user"
  "Ownerships (fst (BeforeSave ext user tx)) = Ownerships user"
  by (simp_all add: BeforeSave_def Let_def split: prod.splits)

section \<open>Evaluating the string functions on literals\<close>

lemma char_of_bits:
  "char_of (n::nat) = Char (odd n) (odd (n div 2)) (odd (n div 4)) (odd (n div 8))
     (odd (n div 16)) (odd (n div 32)) (odd (n div 64)) (odd (n div 128))"
  by (simp add: char_of_def bit_iff_odd)

lemmas string_eval = ToLower_def ToUpper_def isASCII_def lower_byte_def upper_byte_def byte_def
  char_of_bits

lemmas utf8_eval = DecodeRuneInString_def seq2_def seq3_def seq4_def between_def EncodeRune_def
  RuneError_def unicode_ToUpper_def unicode_ToLower_def

section \<open>Partial updates\<close>

text \<open>
  C1. For every backend, database state and user, \<open>Save\<close> with no column returns the
  count 0 and no error, and leaves the database and the user as they were.
\<close>

theorem Save_no_columns:
  "Save g db user [] = (db, user, 0, None)"
  by (simp add: Save_def)

text \<open>
  C2. For every backend and database state, \<open>Save\<close> of a user whose key is 0 with at
  least one column fails with the error "invalid entry ID", returns the count 0 and
  leaves the database and the user as they were.
\<close>

theorem Save_unassigned_id:
  "Id_user user = 0 \<Longrightarrow> columns \<noteq> [] \<Longrightarrow>
   Save g db user columns = (db, user, 0, Some (errors_New ''invalid entry ID''))"
  by (cases columns) (simp_all add: Save_def)

theorem Save_unassigned_id_witness:
  "Id_user jane = 0 \<and> [''active''] \<noteq> []
   \<and> Save (table_gorm text_extern) empty_table jane [''active'']
       = (empty_table, jane, 0, Some (errors_New ''invalid entry ID''))"
proof -
  have k: "Id_user jane = 0"
    by (simp add: jane_def NewUser_def)
  have c: "[''active''] \<noteq> []"
    by simp
  show ?thesis
    using k c Save_unassigned_id [OF k c, of "table_gorm text_extern" empty_table] by simp
qed

text \<open>
  On the reference table, a partial update of the column \<open>active\<close> with the value false
  stores false and touches no other column of the row; one row is affected.
\<close>

lemma Save_active_false:
  "fst (Save (table_gorm text_extern) one_user_table (jane\<lparr>Id_user := 1, Active := False\<rparr>) [''active''])
     = one_user_table\<lparr>rows := [jane\<lparr>Id_user := 1, Email := ''jane@example.com'', Active := False\<rparr>]\<rparr>
   \<and> snd (snd (Save (table_gorm text_extern) one_user_table (jane\<lparr>Id_user := 1, Active := False\<rparr>) [''active'']))
     = (1, None)"
  by (simp add: Save_def table_gorm_def table_Select_Save_def one_user_table_def set_column_def
        violated_def BeforeSave_Id BeforeSave_keeps Let_def jane_def NewUser_def)

section \<open>The JSON form hides the secrets\<close>

text \<open>
  C3. The JSON object of a user has exactly the thirteen members listed, none of them
  for the password hash, the SSO id, the logout counter or the database password hash;
  and whatever these four fields hold, the object is the same.
\<close>

theorem Marshal_hides_secrets:
  "map fst (Marshal_T_user m user) =
     [''id'', ''email'', ''company'', ''department'', ''created'', ''last_login'', ''active'',
      ''admin'', ''name'', ''surname'', ''gender'', ''certificate'', ''ownerships'']
   \<and> Marshal_T_user m (user\<lparr>Password := p, SsoId := s, LogoutCount := n, DbPasswordHash := h\<rparr>)
       = Marshal_T_user m user"
  by (simp add: Marshal_T_user_def)

section \<open>The company of a user\<close>

text \<open>
  C7. \<open>NewUser\<close> with an empty company gives the user the email as company; with a
  company that is not empty, that company.
\<close>

theorem NewUser_company:
  "Company (NewUser now email company department name surname)
     = (if company = [] then email else company)"
  by (simp add: NewUser_def)

text \<open>
  C8, as stated, fails: \<open>NewUser\<close> with an empty email and an empty company makes a user
  whose company is empty.
\<close>

theorem NewUser_empty_company:
  "Company (NewUser 0 [] [] [] [] [] :: unit T_user) = []"
  by (simp add: NewUser_def)

lemma set_column_Company:
  "Company (set_column name src dst) = Company src \<or> Company (set_column name src dst) = Company dst"
  by (simp add: set_column_def)

lemma set_columns_Company:
  "Company (set_columns names src dst) = Company src \<or> Company (set_columns names src dst) = Company dst"
proof (induction names arbitrary: dst)
  case Nil
  then show ?case by simp
next
  case (Cons name names)
  from Cons.IH [of "set_column name src dst"] set_column_Company [of name src dst]
  show ?case by auto
qed

lemma table_Select_Save_company:
  assumes "Company user \<noteq> []" and "companies_set db"
  shows "Company (res_user (table_Select_Save ext db arg0 args user)) \<noteq> []
         \<and> companies_set (res_db (table_Select_Save ext db arg0 args user))"
proof (cases "outage db")
  case (Some f)
  with assms show ?thesis by (simp add: table_Select_Save_def failed_def)
next
  case None
  let ?u = "fst (BeforeSave ext user [])"
  let ?hit = "filter (\<lambda>r. Id_user r = Id_user ?u) (rows db)"
  have cu: "Company ?u \<noteq> []" using assms(1) by (simp add: BeforeSave_Company)
  show ?thesis
  proof (cases ?hit)
    case Nil
    with None cu assms(2) show ?thesis by (simp add: table_Select_Save_def Let_def)
  next
    case (Cons old rest)
    then have "old \<in> set ?hit" by simp
    then have "old \<in> set (rows db)" by simp
    with assms(2) have co: "Company old \<noteq> []"
      by (simp add: companies_set_def list_all_iff)
    let ?row = "set_columns (arg0 # args) ?u old"
    have cr: "Company ?row \<noteq> []"
      using set_columns_Company [of "arg0 # args" ?u old] cu co by auto
    show ?thesis
      using None Cons cu cr assms(2)
      by (auto simp: table_Select_Save_def Let_def failed_def companies_set_def list_all_iff
               split: option.splits)
  qed
qed

lemma table_Create_company:
  assumes "Company user \<noteq> []" and "companies_set db"
  shows "Company (res_user (table_Create ext db user)) \<noteq> []
         \<and> companies_set (res_db (table_Create ext db user))"
  using assms
  by (auto simp: table_Create_def Let_def failed_def companies_set_def list_all_iff BeforeSave_Company
           split: option.splits)

lemma table_Delete_company:
  assumes "Company user \<noteq> []" and "companies_set db"
  shows "Company (res_user (table_Delete db user)) \<noteq> []
         \<and> companies_set (res_db (table_Delete db user))"
  using assms
  by (auto simp: table_Delete_def Let_def failed_def companies_set_def list_all_iff
           split: option.splits)

text \<open>
  C8, amended. \<open>NewUser\<close> makes a user with a company that is not empty whenever the
  email or the company it is given is not empty. \<open>BeforeSave\<close> leaves the company as it
  is, and on the reference table \<open>Save\<close>, \<open>Create\<close> and \<open>Delete\<close> keep both the
  company of the user they are given and the companies of all rows non-empty.
\<close>

theorem company_stays_set:
  "(email \<noteq> [] \<or> company \<noteq> [] \<longrightarrow>
      Company (NewUser now email company department name surname :: 'o T_user) \<noteq> [])
   \<and> Company (fst (BeforeSave ext user tx)) = Company user
   \<and> (Company user \<noteq> [] \<and> companies_set db \<longrightarrow>
        Company (fst (snd (Save (table_gorm ext) db user columns))) \<noteq> []
        \<and> companies_set (fst (Save (table_gorm ext) db user columns))
        \<and> Company (fst (snd (Create (table_gorm ext) db user))) \<noteq> []
        \<and> companies_set (fst (Create (table_gorm ext) db user))
        \<and> Company (fst (snd (Delete (table_gorm ext) db user))) \<noteq> []
        \<and> companies_set (fst (Delete (table_gorm ext) db user)))"
proof (intro conjI impI)
  assume "email \<noteq> [] \<or> company \<noteq> []"
  then show "Company (NewUser now email company department name surname :: 'o T_user) \<noteq> []"
    by (auto simp: NewUser_def)
next
  show "Company (fst (BeforeSave ext user tx)) = Company user"
    by (rule BeforeSave_Company)
next
  assume a: "Company user \<noteq> [] \<and> companies_set db"
  have s: "Company (res_user (table_Select_Save ext db arg0 args user)) \<noteq> []
           \<and> companies_set (res_db (table_Select_Save ext db arg0 args user))" for arg0 args
    using a table_Select_Save_company by blast
  show "Company (fst (snd (Save (table_gorm ext) db user columns))) \<noteq> []"
    using a s by (cases columns) (auto simp: Save_def table_gorm_def Let_def split: option.splits)
  show "companies_set (fst (Save (table_gorm ext) db user columns))"
    using a s by (cases columns) (auto simp: Save_def table_gorm_def Let_def split: option.splits)
  have c: "Company (res_user (table_Create ext db user)) \<noteq> []
           \<and> companies_set (res_db (table_Create ext db user))"
    using a table_Create_company by blast
  show "Company (fst (snd (Create (table_gorm ext) db user))) \<noteq> []"
    using c by (auto simp: Create_def table_gorm_def Let_def split: option.splits)
  show "companies_set (fst (Create (table_gorm ext) db user))"
    using c by (auto simp: Create_def table_gorm_def Let_def split: option.splits)
  have d: "Company (res_user (table_Delete db user)) \<noteq> []
           \<and> companies_set (res_db (table_Delete db user))"
    using a table_Delete_company by blast
  show "Company (fst (snd (Delete (table_gorm ext) db user))) \<noteq> []"
    using d by (auto simp: Delete_def table_gorm_def Let_def split: option.splits)
  show "companies_set (fst (Delete (table_gorm ext) db user))"
    using d by (auto simp: Delete_def table_gorm_def Let_def split: option.splits)
qed

lemma jane_Company: "Company jane = ''Jane@Example.COM''"
  by (simp add: jane_def NewUser_def)

theorem company_stays_set_witness:
  "Company jane = ''Jane@Example.COM'' \<and> companies_set empty_table
   \<and> Company (fst (snd (Create (table_gorm text_extern) empty_table jane))) \<noteq> []
   \<and> companies_set (fst (Create (table_gorm text_extern) empty_table jane))
   \<and> rows (fst (Create (table_gorm text_extern) empty_table jane)) \<noteq> []"
proof -
  have e: "companies_set empty_table"
    by (simp add: companies_set_def empty_table_def)
  have r: "rows (fst (Create (table_gorm text_extern) empty_table jane)) \<noteq> []"
    by (simp add: Create_def table_gorm_def table_Create_def empty_table_def violated_def Let_def)
  have j: "Company jane \<noteq> []"
    by (simp add: jane_Company)
  note t = company_stays_set [of "''Jane@Example.COM''" "[]" 1000 "''IT''" "''Jane''" "''Doe''"
        text_extern jane "[]" empty_table "[''active'']"]
  from t j e have "Company (fst (snd (Create (table_gorm text_extern) empty_table jane))) \<noteq> []
      \<and> companies_set (fst (Create (table_gorm text_extern) empty_table jane))"
    by blast
  with e r jane_Company show ?thesis
    by blast
qed

section \<open>Reading a user that is not there\<close>




section \<open>Errors of a creation\<close>




section \<open>Case folding\<close>

text \<open>
  The byte of a letter after lowering or raising it, and what two bytes share when
  lowering makes them equal.
\<close>

lemma byte_inj: "byte x = byte y \<Longrightarrow> x = y"
  by (simp add: byte_def)

lemma byte_lower_byte:
  "byte (lower_byte c) = (if 0x41 \<le> byte c \<and> byte c \<le> 0x5A then byte c + 0x20 else byte c)"
  by (simp add: lower_byte_def byte_def)

lemma byte_upper_byte:
  "byte (upper_byte c) = (if 0x61 \<le> byte c \<and> byte c \<le> 0x7A then byte c - 0x20 else byte c)"
proof -
  have "(of_char c :: nat) < 256"
    by simp
  then have "(of_char c :: nat) - 0x20 < 256"
    by arith
  then show ?thesis
    by (simp add: upper_byte_def byte_def)
qed

lemma lower_eq_upper_eq:
  assumes "lower_byte x = lower_byte y"
  shows "upper_byte x = upper_byte y"
proof -
  have "byte (lower_byte x) = byte (lower_byte y)"
    using assms by simp
  then have "byte (upper_byte x) = byte (upper_byte y)"
    by (auto simp: byte_lower_byte byte_upper_byte split: if_splits)
  then show ?thesis
    by (rule byte_inj)
qed

lemma lower_eq_high:
  assumes "lower_byte x = lower_byte y" and "0x80 \<le> byte x"
  shows "x = y"
proof -
  have "byte (lower_byte x) = byte (lower_byte y)"
    using assms(1) by simp
  then have "byte x = byte y"
    using assms(2) by (auto simp: byte_lower_byte split: if_splits)
  then show ?thesis
    by (rule byte_inj)
qed

lemma lower_eq_ascii:
  assumes "lower_byte x = lower_byte y"
  shows "(byte x < 0x80) = (byte y < 0x80)"
proof -
  have "byte (lower_byte x) = byte (lower_byte y)"
    using assms by simp
  then show ?thesis
    by (auto simp: byte_lower_byte split: if_splits)
qed

lemma lower_eq_between:
  assumes "lower_byte x = lower_byte y" and "0x80 \<le> lo"
  shows "between lo hi x = between lo hi y"
proof (cases "0x80 \<le> byte x")
  case True
  with assms(1) have "x = y" by (rule lower_eq_high)
  then show ?thesis by simp
next
  case False
  with lower_eq_ascii [OF assms(1)] have "byte x < 0x80" "byte y < 0x80" by auto
  with assms(2) show ?thesis by (simp add: between_def)
qed


lemma nth_lower:
  assumes "map lower_byte a = map lower_byte b" and "i < length a"
  shows "lower_byte (a ! i) = lower_byte (b ! i)"
proof -
  have "length a = length b"
    using assms(1) by (rule map_eq_imp_length_eq)
  with assms(2) have "map lower_byte a ! i = lower_byte (a ! i)" "map lower_byte b ! i = lower_byte (b ! i)"
    by simp_all
  with assms(1) show ?thesis by simp
qed

lemma seq2_cong:
  assumes h: "map lower_byte a = map lower_byte b"
  shows "seq2 a = seq2 b \<and> (seq2 a \<longrightarrow> a ! 0 = b ! 0 \<and> a ! 1 = b ! 1)"
proof -
  have len: "length a = length b"
    using h by (rule map_eq_imp_length_eq)
  show ?thesis
  proof (cases "2 \<le> length a")
    case False
    with len show ?thesis by (simp add: seq2_def)
  next
    case True
    then have l0: "lower_byte (a ! 0) = lower_byte (b ! 0)"
      by (intro nth_lower [OF h]) auto
    from True have l1: "lower_byte (a ! 1) = lower_byte (b ! 1)"
      by (intro nth_lower [OF h]) simp
    have b0: "between 0xC2 0xDF (a ! 0) = between 0xC2 0xDF (b ! 0)"
      using l0 by (rule lower_eq_between) simp
    have b1: "between 0x80 0xBF (a ! 1) = between 0x80 0xBF (b ! 1)"
      using l1 by (rule lower_eq_between) simp
    have e0: "between 0xC2 0xDF (a ! 0) \<Longrightarrow> a ! 0 = b ! 0"
      using l0 by (rule lower_eq_high) (simp add: between_def)
    have e1: "between 0x80 0xBF (a ! 1) \<Longrightarrow> a ! 1 = b ! 1"
      using l1 by (rule lower_eq_high) (simp add: between_def)
    from len b0 b1 e0 e1 show ?thesis
      by (simp add: seq2_def)
  qed
qed


lemma seq3_cong:
  assumes h: "map lower_byte a = map lower_byte b"
  shows "seq3 a = seq3 b \<and> (seq3 a \<longrightarrow> a ! 0 = b ! 0 \<and> a ! 1 = b ! 1 \<and> a ! 2 = b ! 2)"
proof -
  have len: "length a = length b"
    using h by (rule map_eq_imp_length_eq)
  show ?thesis
  proof (cases "3 \<le> length a")
    case False
    with len show ?thesis by (simp add: seq3_def)
  next
    case True
    then have l0: "lower_byte (a ! 0) = lower_byte (b ! 0)"
      by (intro nth_lower [OF h]) auto
    from True have l1: "lower_byte (a ! 1) = lower_byte (b ! 1)"
      by (intro nth_lower [OF h]) simp
    from True have l2: "lower_byte (a ! 2) = lower_byte (b ! 2)"
      by (intro nth_lower [OF h]) simp
    have b0: "between 0xE0 0xEF (a ! 0) = between 0xE0 0xEF (b ! 0)"
      using l0 by (rule lower_eq_between) simp
    have e0: "between 0xE0 0xEF (a ! 0) \<Longrightarrow> a ! 0 = b ! 0"
      using l0 by (rule lower_eq_high) (simp add: between_def)
    have b1: "between lo hi (a ! 1) = between lo hi (b ! 1)" if "0x80 \<le> lo" for lo hi
      using l1 that by (rule lower_eq_between)
    have e1: "between lo hi (a ! 1) \<Longrightarrow> 0x80 \<le> lo \<Longrightarrow> a ! 1 = b ! 1" for lo hi
      using l1 by (rule lower_eq_high) (simp add: between_def)
    have b2: "between 0x80 0xBF (a ! 2) = between 0x80 0xBF (b ! 2)"
      using l2 by (rule lower_eq_between) simp
    have e2: "between 0x80 0xBF (a ! 2) \<Longrightarrow> a ! 2 = b ! 2"
      using l2 by (rule lower_eq_high) (simp add: between_def)
    show ?thesis
    proof (cases "between 0xE0 0xEF (a ! 0)")
      case False
      with b0 show ?thesis by (simp add: seq3_def)
    next
      case t0: True
      with e0 have eq0: "a ! 0 = b ! 0" by simp
      let ?lo = "if byte (a ! 0) = 0xE0 then 0xA0 else 0x80 :: nat"
      let ?hi = "if byte (a ! 0) = 0xED then 0x9F else 0xBF :: nat"
      have lo: "0x80 \<le> ?lo" by simp
      from b1 [OF lo] e1 [OF _ lo] b2 e2 eq0 len True show ?thesis
        by (auto simp: seq3_def)
    qed
  qed
qed


lemma seq4_cong:
  assumes h: "map lower_byte a = map lower_byte b"
  shows "seq4 a = seq4 b
         \<and> (seq4 a \<longrightarrow> a ! 0 = b ! 0 \<and> a ! 1 = b ! 1 \<and> a ! 2 = b ! 2 \<and> a ! 3 = b ! 3)"
proof -
  have len: "length a = length b"
    using h by (rule map_eq_imp_length_eq)
  show ?thesis
  proof (cases "4 \<le> length a")
    case False
    with len show ?thesis by (simp add: seq4_def)
  next
    case True
    then have l0: "lower_byte (a ! 0) = lower_byte (b ! 0)"
      by (intro nth_lower [OF h]) auto
    from True have l1: "lower_byte (a ! 1) = lower_byte (b ! 1)"
      by (intro nth_lower [OF h]) simp
    from True have l2: "lower_byte (a ! 2) = lower_byte (b ! 2)"
      by (intro nth_lower [OF h]) simp
    from True have l3: "lower_byte (a ! 3) = lower_byte (b ! 3)"
      by (intro nth_lower [OF h]) simp
    have b0: "between 0xF0 0xF4 (a ! 0) = between 0xF0 0xF4 (b ! 0)"
      using l0 by (rule lower_eq_between) simp
    have e0: "between 0xF0 0xF4 (a ! 0) \<Longrightarrow> a ! 0 = b ! 0"
      using l0 by (rule lower_eq_high) (simp add: between_def)
    have b1: "between lo hi (a ! 1) = between lo hi (b ! 1)" if "0x80 \<le> lo" for lo hi
      using l1 that by (rule lower_eq_between)
    have e1: "between lo hi (a ! 1) \<Longrightarrow> 0x80 \<le> lo \<Longrightarrow> a ! 1 = b ! 1" for lo hi
      using l1 by (rule lower_eq_high) (simp add: between_def)
    have b2: "between 0x80 0xBF (a ! 2) = between 0x80 0xBF (b ! 2)"
      using l2 by (rule lower_eq_between) simp
    have e2: "between 0x80 0xBF (a ! 2) \<Longrightarrow> a ! 2 = b ! 2"
      using l2 by (rule lower_eq_high) (simp add: between_def)
    have b3: "between 0x80 0xBF (a ! 3) = between 0x80 0xBF (b ! 3)"
      using l3 by (rule lower_eq_between) simp
    have e3: "between 0x80 0xBF (a ! 3) \<Longrightarrow> a ! 3 = b ! 3"
      using l3 by (rule lower_eq_high) (simp add: between_def)
    show ?thesis
    proof (cases "between 0xF0 0xF4 (a ! 0)")
      case False
      with b0 show ?thesis by (simp add: seq4_def)
    next
      case t0: True
      with e0 have eq0: "a ! 0 = b ! 0" by simp
      let ?lo = "if byte (a ! 0) = 0xF0 then 0x90 else 0x80 :: nat"
      have lo: "0x80 \<le> ?lo" by simp
      from b1 [OF lo] e1 [OF _ lo] b2 e2 b3 e3 eq0 len True show ?thesis
        by (auto simp: seq4_def)
    qed
  qed
qed

text \<open>Decoding the first rune of two such strings.\<close>

lemma DecodeRune_cong:
  assumes h: "map lower_byte a = map lower_byte b"
    and g: "\<And>x y. lower_byte x = lower_byte y \<Longrightarrow> byte x < 0x80 \<Longrightarrow> g (byte x) = g (byte y)"
  shows "snd (DecodeRuneInString a) = snd (DecodeRuneInString b)
         \<and> g (fst (DecodeRuneInString a)) = g (fst (DecodeRuneInString b))"
proof (cases a)
  case Nil
  with h show ?thesis by simp
next
  case (Cons c cs)
  have len: "length a = length b"
    using h by (rule map_eq_imp_length_eq)
  with Cons have ne: "a \<noteq> []" "b \<noteq> []" by auto
  from Cons have l0: "lower_byte (a ! 0) = lower_byte (b ! 0)"
    by (intro nth_lower [OF h]) simp
  have asc: "(byte (a ! 0) < 0x80) = (byte (b ! 0) < 0x80)"
    using l0 by (rule lower_eq_ascii)
  show ?thesis
  proof (cases "byte (a ! 0) < 0x80")
    case True
    with asc g [OF l0] ne show ?thesis
      by (simp add: DecodeRuneInString_def)
  next
    case False
    with asc have nb: "\<not> byte (b ! 0) < 0x80" by simp
    from seq2_cong [OF h] seq3_cong [OF h] seq4_cong [OF h] False nb ne show ?thesis
      by (auto simp: DecodeRuneInString_def)
  qed
qed

lemma Map_str_step:
  "s \<noteq> [] \<Longrightarrow>
   Map_str g s = EncodeRune (g (fst (DecodeRuneInString s)))
                 @ Map_str g (drop (snd (DecodeRuneInString s)) s)"
  by (cases s) simp_all

lemma Map_str_cong:
  assumes h: "map lower_byte a = map lower_byte b"
    and g: "\<And>x y. lower_byte x = lower_byte y \<Longrightarrow> byte x < 0x80 \<Longrightarrow> g (byte x) = g (byte y)"
  shows "Map_str g a = Map_str g b"
  using h
proof (induction "length a" arbitrary: a b rule: less_induct)
  case less
  show ?case
  proof (cases a)
    case Nil
    with less.prems show ?thesis by simp
  next
    case (Cons c cs)
    from less.prems have len: "length a = length b"
      by (rule map_eq_imp_length_eq)
    with Cons obtain d ds where b: "b = d # ds"
      by (cases b) auto
    note dc = DecodeRune_cong [where g = g, OF less.prems g]
    let ?w = "snd (DecodeRuneInString a)"
    have w: "0 < ?w"
      using Cons by (simp add: DecodeRuneInString_def)
    have shorter: "length (drop ?w a) < length a"
      using w Cons by simp
    have rest: "map lower_byte (drop ?w a) = map lower_byte (drop ?w b)"
      using less.prems by (simp add: drop_map [symmetric])
    have "Map_str g (drop ?w a) = Map_str g (drop ?w b)"
      using shorter rest by (rule less.hyps)
    moreover have "a \<noteq> []" "b \<noteq> []"
      using Cons b by simp_all
    ultimately show ?thesis
      using dc by (simp add: Map_str_step)
  qed
qed


lemma map_lower_eq_map_upper:
  "map lower_byte a = map lower_byte b \<Longrightarrow> map upper_byte a = map upper_byte b"
proof (induction a arbitrary: b)
  case Nil
  then show ?case by simp
next
  case (Cons c cs)
  then obtain d ds where b: "b = d # ds"
    by (cases b) auto
  with Cons.prems have l: "lower_byte c = lower_byte d" and r: "map lower_byte cs = map lower_byte ds"
    by simp_all
  from l have "upper_byte c = upper_byte d"
    by (rule lower_eq_upper_eq)
  with Cons.IH [OF r] b show ?case
    by simp
qed

lemma isASCII_cong:
  "map lower_byte a = map lower_byte b \<Longrightarrow> isASCII a = isASCII b"
proof (induction a arbitrary: b)
  case Nil
  then show ?case by simp
next
  case (Cons c cs)
  then obtain d ds where b: "b = d # ds"
    by (cases b) auto
  with Cons.prems have l: "lower_byte c = lower_byte d" and r: "map lower_byte cs = map lower_byte ds"
    by simp_all
  from l have "(byte c < 0x80) = (byte d < 0x80)"
    by (rule lower_eq_ascii)
  with Cons.IH [OF r] b show ?case
    by (simp add: isASCII_def)
qed

lemma unicode_ToLower_cong:
  assumes "lower_byte x = lower_byte y" and "byte x < 0x80"
  shows "unicode_ToLower ext (byte x) = unicode_ToLower ext (byte y)"
proof -
  have "byte (lower_byte x) = byte (lower_byte y)"
    using assms(1) by simp
  moreover have "byte y < 0x80"
    using lower_eq_ascii [OF assms(1)] assms(2) by simp
  ultimately show ?thesis
    using assms(2) by (simp add: unicode_ToLower_def byte_lower_byte)
qed

lemma unicode_ToUpper_cong:
  assumes "lower_byte x = lower_byte y" and "byte x < 0x80"
  shows "unicode_ToUpper ext (byte x) = unicode_ToUpper ext (byte y)"
proof -
  have "upper_byte x = upper_byte y"
    using assms(1) by (rule lower_eq_upper_eq)
  then have "byte (upper_byte x) = byte (upper_byte y)"
    by simp
  moreover have "byte y < 0x80"
    using lower_eq_ascii [OF assms(1)] assms(2) by simp
  ultimately show ?thesis
    using assms(2) by (simp add: unicode_ToUpper_def byte_upper_byte)
qed

lemma ToLower_cong:
  assumes "same_but_ASCII_case a b"
  shows "ToLower ext a = ToLower ext b"
proof -
  have h: "map lower_byte a = map lower_byte b"
    using assms by (simp add: same_but_ASCII_case_def)
  have "Map_str (unicode_ToLower ext) a = Map_str (unicode_ToLower ext) b"
    using h by (rule Map_str_cong) (rule unicode_ToLower_cong)
  with h isASCII_cong [OF h] show ?thesis
    by (simp add: ToLower_def)
qed

lemma ToUpper_cong:
  assumes "same_but_ASCII_case a b"
  shows "ToUpper ext a = ToUpper ext b"
proof -
  have h: "map lower_byte a = map lower_byte b"
    using assms by (simp add: same_but_ASCII_case_def)
  have "Map_str (unicode_ToUpper ext) a = Map_str (unicode_ToUpper ext) b"
    using h by (rule Map_str_cong) (rule unicode_ToUpper_cong)
  with map_lower_eq_map_upper [OF h] isASCII_cong [OF h] show ?thesis
    by (simp add: ToUpper_def)
qed

text \<open>
  C4, as stated, fails. Take an address that starts with a final sigma (the bytes CF 82)
  and the same address folded to upper case by \<open>strings.ToUpper\<close>, which starts with a
  capital sigma (CE A3): the two differ only in letter case. They are stored as two
  different values, since \<open>strings.ToLower\<close> turns the capital sigma into the small sigma
  (CF 83) and leaves the final sigma as it is.
\<close>

theorem sigma_addresses_stay_apart:
  "plain_text [CHR 0xCF, CHR 0x82, CHR ''@'', CHR ''x'', CHR ''.'', CHR ''g'', CHR ''r'']
   \<and> plain_text [CHR 0xCE, CHR 0xA3, CHR ''@'', CHR ''X'', CHR ''.'', CHR ''G'', CHR ''R'']
   \<and> ToUpper text_extern [CHR 0xCF, CHR 0x82, CHR ''@'', CHR ''x'', CHR ''.'', CHR ''g'', CHR ''r'']
     = [CHR 0xCE, CHR 0xA3, CHR ''@'', CHR ''X'', CHR ''.'', CHR ''G'', CHR ''R'']
   \<and> Email (fst (BeforeSave text_extern
         (jane\<lparr>Email := [CHR 0xCE, CHR 0xA3, CHR ''@'', CHR ''X'', CHR ''.'', CHR ''G'', CHR ''R'']\<rparr>) []))
       = [CHR 0xCF, CHR 0x83, CHR ''@'', CHR ''x'', CHR ''.'', CHR ''g'', CHR ''r'']
   \<and> Email (fst (BeforeSave text_extern
         (jane\<lparr>Email := [CHR 0xCF, CHR 0x82, CHR ''@'', CHR ''x'', CHR ''.'', CHR ''g'', CHR ''r'']\<rparr>) []))
       = [CHR 0xCF, CHR 0x82, CHR ''@'', CHR ''x'', CHR ''.'', CHR ''g'', CHR ''r'']"
  by (simp add: BeforeSave_Email plain_text_def string_eval utf8_eval text_extern_def)

text \<open>
  C4, amended. \<open>BeforeSave\<close> stores the sanitized email folded to lower case and the
  sanitized SSO id, when there is one, folded to upper case; two users whose sanitized
  emails (SSO ids) differ only in the case of ASCII letters get the same stored email
  (SSO id).
\<close>

theorem case_folding:
  "Email (fst (BeforeSave ext user tx)) = ToLower ext (Sanitize ext (Email user))
   \<and> SsoId (fst (BeforeSave ext user tx)) =
       (if Valid (SsoId user)
        then \<lparr>String = ToUpper ext (Sanitize ext (String (SsoId user))), Valid = True\<rparr>
        else SsoId user)
   \<and> (same_but_ASCII_case (Sanitize ext (Email user)) (Sanitize ext (Email user')) \<longrightarrow>
        Email (fst (BeforeSave ext user tx)) = Email (fst (BeforeSave ext user' tx')))
   \<and> (Valid (SsoId user) \<and> Valid (SsoId user')
        \<and> same_but_ASCII_case (Sanitize ext (String (SsoId user)))
                                (Sanitize ext (String (SsoId user'))) \<longrightarrow>
        SsoId (fst (BeforeSave ext user tx)) = SsoId (fst (BeforeSave ext user' tx')))"
proof (intro conjI impI)
  show "Email (fst (BeforeSave ext user tx)) = ToLower ext (Sanitize ext (Email user))"
    by (rule BeforeSave_Email)
next
  show "SsoId (fst (BeforeSave ext user tx)) =
       (if Valid (SsoId user)
        then \<lparr>String = ToUpper ext (Sanitize ext (String (SsoId user))), Valid = True\<rparr>
        else SsoId user)"
    by (rule BeforeSave_SsoId)
next
  assume "same_but_ASCII_case (Sanitize ext (Email user)) (Sanitize ext (Email user'))"
  then have "ToLower ext (Sanitize ext (Email user)) = ToLower ext (Sanitize ext (Email user'))"
    by (rule ToLower_cong)
  then show "Email (fst (BeforeSave ext user tx)) = Email (fst (BeforeSave ext user' tx'))"
    by (simp add: BeforeSave_Email)
next
  assume a: "Valid (SsoId user) \<and> Valid (SsoId user')
        \<and> same_but_ASCII_case (Sanitize ext (String (SsoId user)))
                                (Sanitize ext (String (SsoId user')))"
  then have "ToUpper ext (Sanitize ext (String (SsoId user)))
             = ToUpper ext (Sanitize ext (String (SsoId user')))"
    by (intro ToUpper_cong) simp
  with a show "SsoId (fst (BeforeSave ext user tx)) = SsoId (fst (BeforeSave ext user' tx'))"
    by (simp add: BeforeSave_SsoId)
qed


theorem case_folding_witness:
  "same_but_ASCII_case ''User@Example.COM'' ''USER@example.com''
   \<and> same_but_ASCII_case ''abc-123'' ''ABC-123''
   \<and> Email (fst (BeforeSave text_extern (jane\<lparr>Email := ''User@Example.COM''\<rparr>) []))
       = ''user@example.com''
   \<and> Email (fst (BeforeSave text_extern (jane\<lparr>Email := ''USER@example.com''\<rparr>) []))
       = ''user@example.com''
   \<and> SsoId (fst (BeforeSave text_extern (jane\<lparr>SsoId := \<lparr>String = ''abc-123'', Valid = True\<rparr>\<rparr>) []))
       = \<lparr>String = ''ABC-123'', Valid = True\<rparr>
   \<and> SsoId (fst (BeforeSave text_extern (jane\<lparr>SsoId := \<lparr>String = ''ABC-123'', Valid = True\<rparr>\<rparr>) []))
       = \<lparr>String = ''ABC-123'', Valid = True\<rparr>"
proof -
  let ?u = "jane\<lparr>Email := ''User@Example.COM'', SsoId := \<lparr>String = ''abc-123'', Valid = True\<rparr>\<rparr>"
  let ?v = "jane\<lparr>Email := ''USER@example.com'', SsoId := \<lparr>String = ''ABC-123'', Valid = True\<rparr>\<rparr>"
  have e: "same_but_ASCII_case ''User@Example.COM'' ''USER@example.com''"
    by (simp add: same_but_ASCII_case_def string_eval)
  have s: "same_but_ASCII_case ''abc-123'' ''ABC-123''"
    by (simp add: same_but_ASCII_case_def string_eval)
  have l: "ToLower text_extern ''User@Example.COM'' = ''user@example.com''"
    by (simp add: string_eval)
  have u: "ToUpper text_extern ''abc-123'' = ''ABC-123''"
    by (simp add: string_eval)
  note t = case_folding [where ext = text_extern and user = ?u and user' = ?v
      and tx = "[]" and tx' = "[]"]
  have x: "Sanitize text_extern = (\<lambda>s. s)"
    by (simp add: text_extern_def)
  from t e s l u x show ?thesis
    by (simp add: BeforeSave_Email BeforeSave_SsoId)
qed

section \<open>The gender\<close>

text \<open>
  The stored gender is the first byte, if any, of the sanitized gender in upper case.
  Where the sanitizer leaves the text alone, "Diverse" becomes "D" and the empty gender
  stays empty.
\<close>

lemma gender_at_most_one_byte:
  "length (Gender (fst (BeforeSave ext user tx))) \<le> 1"
  by (simp add: BeforeSave_Gender)

lemma gender_examples:
  "Gender (fst (BeforeSave text_extern (jane\<lparr>Gender := ''Diverse''\<rparr>) [])) = ''D''
   \<and> Gender (fst (BeforeSave text_extern (jane\<lparr>Gender := []\<rparr>) [])) = []"
  by (simp add: BeforeSave_Gender string_eval text_extern_def)


text \<open>
  C6 at a gender that starts with a character of several bytes. The gender is cut after
  its first byte, whatever the character it starts with. The Chinese word for female is
  one character of three bytes, E5 A5 B3, and has no case. \<open>BeforeSave\<close> leaves the
  single byte E5 of it, which is no character: decoding meets an ill-formed byte.
\<close>

theorem gender_cut_inside_character:
  "plain_text [CHR 0xE5, CHR 0xA5, CHR 0xB3]
   \<and> DecodeRuneInString [CHR 0xE5, CHR 0xA5, CHR 0xB3] = (0x5973, 3)
   \<and> Gender (fst (BeforeSave text_extern (jane\<lparr>Gender := [CHR 0xE5, CHR 0xA5, CHR 0xB3]\<rparr>) []))
       = [CHR 0xE5]
   \<and> ill_formed_head [CHR 0xE5]"
  by (simp add: BeforeSave_Gender ill_formed_head_def plain_text_def string_eval utf8_eval
        text_extern_def)

text \<open>
  C5 at the same gender. A second run of \<open>BeforeSave\<close> changes the byte the first run
  left: \<open>strings.ToUpper\<close> reads the ill-formed byte as \<open>RuneError\<close> and writes the three
  bytes EF BF BD, of which the cut keeps EF. So the second run does not give what the
  first gave.
\<close>

theorem second_BeforeSave_changes_gender:
  "plain_text [CHR 0xE5, CHR 0xA5, CHR 0xB3] \<and> plain_text [CHR 0xE5]
   \<and> Gender (fst (BeforeSave text_extern (jane\<lparr>Gender := [CHR 0xE5, CHR 0xA5, CHR 0xB3]\<rparr>) []))
     = [CHR 0xE5]
   \<and> Gender (fst (BeforeSave text_extern
         (fst (BeforeSave text_extern (jane\<lparr>Gender := [CHR 0xE5, CHR 0xA5, CHR 0xB3]\<rparr>) [])) []))
       = [CHR 0xEF]"
  by (simp add: BeforeSave_Gender plain_text_def string_eval utf8_eval text_extern_def)

end
